theory Spec2Isabelle
  imports Complex_Main
begin

section \<open>Data model\<close>

text \<open>
  Vectors and matrices are the \<^verbatim>\<open>double [:]\<close> and \<^verbatim>\<open>double [:,:]\<close> views of
  \<^verbatim>\<open>filter.pxd\<close>, a matrix being the list of its rows; the arithmetic is done over the
  reals. A control sample is a \<^verbatim>\<open>char [:]\<close> view, one small integer per control.
\<close>

type_synonym vec = "real list"
type_synonym mat = "real list list"
type_synonym sample = "int list"

text \<open>
  The exceptions a caller can observe. \<^verbatim>\<open>raise "text"\<close> of the source raises a plain
  string: \<open>RaiseStr\<close> keeps the text of the source line (the interpreter reports such a
  raise as a failure of the statement, since a string is not an exception class; in both
  readings the constructor call is aborted). \<open>StopIteration\<close> is the end-of-sequence
  signal of the iterator protocol. \<open>BufferUnderrunError\<close> and \<open>NumericalError\<close> are the
  runtime and construction-time failures of the engine.
\<close>

datatype exn = RaiseStr string | StopIteration | BufferUnderrunError | NumericalError

text \<open>
  The fields of \<^verbatim>\<open>cdef class Filter\<close>; \<open>flt_X\<close> stands for the attribute \<^verbatim>\<open>_X\<close>.
  \<open>flt_control_signal\<close> holds the samples of the window buffer that are in use, in
  arrival order, so that \<^verbatim>\<open>_control_signal_in_buffer\<close> is its length;
  \<open>flt_estimate\<close> holds the resolved output samples that have not been handed out yet.
  The dimensions \<^verbatim>\<open>_N\<close>, \<^verbatim>\<open>_M\<close>, \<^verbatim>\<open>_L\<close> are the lengths of the lists.
  Modelled from the spec: the carried Forward State \<open>flt_mf\<close>, which the declarations
  of \<^verbatim>\<open>filter.pxd\<close> do not list.
\<close>

record Filter =
  flt_Af :: mat
  flt_Ab :: mat
  flt_Bf :: mat
  flt_Bb :: mat
  flt_WT :: mat
  flt_control_signal :: "sample list"
  flt_estimate :: "vec list"
  flt_K1 :: int
  flt_K2 :: int
  flt_mf :: vec

text \<open>
  The upstream producer \<^verbatim>\<open>controlSignalSequence\<close>: any iterator, finite or not. It is
  the sequence of the samples it will yield, \<open>None\<close> from the place where it is exhausted,
  and the number of samples taken so far.
\<close>

record source =
  src_feed :: "nat \<Rightarrow> sample option"
  src_pos :: nat

text \<open>
  An instance of \<^verbatim>\<open>class DigitalEstimator(C_Digital_Estimator)\<close>: the engine of the
  base class and the attributes \<^verbatim>\<open>_s\<close>, \<^verbatim>\<open>_size\<close> and \<^verbatim>\<open>_iteration\<close>.
\<close>

record DigitalEstimator =
  est_filter :: Filter
  est_s :: source
  est_size :: int
  est_iteration :: int

section \<open>Construction\<close>

text \<open>
  \<^verbatim>\<open>DigitalEstimator.__init__\<close>. The constructor of the base class is not part of the
  sources; it is the parameter \<open>C_init\<close>, which computes the filter coefficients from the
  analog system, the digital control and \<open>eta2\<close>, and either fails or returns the engine
  and the initial value of the counter \<^verbatim>\<open>_iteration\<close>.
\<close>

definition DigitalEstimator_init ::
  "('sys \<Rightarrow> 'ctl \<Rightarrow> real \<Rightarrow> int \<Rightarrow> int \<Rightarrow> exn + Filter \<times> int) \<Rightarrow>
   source \<Rightarrow> 'sys \<Rightarrow> 'ctl \<Rightarrow> real \<Rightarrow> int \<Rightarrow> int \<Rightarrow> int \<Rightarrow> exn + DigitalEstimator" where
  "DigitalEstimator_init C_init controlSignalSequence analogSystem digitalControl eta2 K1 K2
      stop_after_number_of_iterations =
    (if stop_after_number_of_iterations < 0
     then Inl (RaiseStr ''stop_after_number_of_iterations must be non negative'')
     else if K1 < 1
     then Inl (RaiseStr ''K1 must be a positive integer'')
     else if K2 < 0
     then Inl (RaiseStr ''K2 must be a non negative integer'')
     else (case C_init analogSystem digitalControl eta2 K1 K2 of
             Inl e \<Rightarrow> Inl e
           | Inr (F, it0) \<Rightarrow>
               Inr \<lparr>est_filter = F, est_s = controlSignalSequence,
                    est_size = stop_after_number_of_iterations, est_iteration = it0\<rparr>))"

text \<open>The errors raised by the checks of the constructor itself.\<close>

definition configuration_errors :: "exn set" where
  "configuration_errors =
    {RaiseStr ''stop_after_number_of_iterations must be non negative'',
     RaiseStr ''K1 must be a positive integer'',
     RaiseStr ''K2 must be a non negative integer''}"

section \<open>The batch recursion engine\<close>

text \<open>
  Dense linear algebra on lists: \<open>dot_product\<close> is numpy's \<^verbatim>\<open>dot\<close> on two vectors,
  \<open>mat_vec\<close> the product of a matrix and a vector, \<open>vec_add\<close> the sum of two vectors;
  \<open>as_vec\<close> reads the integers of a control sample as reals. \<open>step A B m s\<close> is one
  step \<open>A\<cdot>m + B\<cdot>s\<close> of a recursion.
\<close>

definition dot_product :: "vec \<Rightarrow> vec \<Rightarrow> real" where
  "dot_product x y = sum_list (map2 (*) x y)"

definition mat_vec :: "mat \<Rightarrow> vec \<Rightarrow> vec" where
  "mat_vec A x = map (\<lambda>row. dot_product row x) A"

definition vec_add :: "vec \<Rightarrow> vec \<Rightarrow> vec" where
  "vec_add x y = map2 (+) x y"

definition as_vec :: "sample \<Rightarrow> vec" where
  "as_vec s = map real_of_int s"

definition zero_vec :: "nat \<Rightarrow> vec" where
  "zero_vec n = replicate n 0"

definition step :: "mat \<Rightarrow> mat \<Rightarrow> vec \<Rightarrow> sample \<Rightarrow> vec" where
  "step A B m s = vec_add (mat_vec A m) (mat_vec B (as_vec s))"

text \<open>
  Modelled from the spec: the two passes of \<^verbatim>\<open>Filter.compute_batch\<close>, of which the
  sources hold the declaration only. The forward pass runs over the window in arrival
  order from the carried state and records every state; the backward pass runs over the
  window from its far end, starting from the zero terminal condition, and records its
  states in arrival order.
\<close>

fun forward_pass :: "mat \<Rightarrow> mat \<Rightarrow> vec \<Rightarrow> sample list \<Rightarrow> vec list" where
  "forward_pass Af Bf m [] = []"
| "forward_pass Af Bf m (s # ss) =
     (let m' = step Af Bf m s in m' # forward_pass Af Bf m' ss)"

fun backward_pass :: "mat \<Rightarrow> mat \<Rightarrow> vec \<Rightarrow> sample list \<Rightarrow> vec list \<Rightarrow> vec list" where
  "backward_pass Ab Bb m [] acc = acc"
| "backward_pass Ab Bb m (s # ss) acc =
     (let m' = step Ab Bb m s in backward_pass Ab Bb m' ss (m' # acc))"

text \<open>
  Modelled from the spec: \<^verbatim>\<open>compute_batch\<close> (section 4.3), of which the sources hold
  the declaration only. It requires a window of exactly \<open>K1 + K2\<close> samples and reports a
  \<open>BufferUnderrunError\<close> otherwise, leaving the engine as it was. Otherwise it runs
  both passes, stores the \<open>K1\<close> outputs \<open>WT\<cdot>(mf\<^sub>i + mb\<^sub>i)\<close>, advances the carried forward
  state to \<open>mf\<close> at the end of the resolved batch and drops the first \<open>K1\<close> samples of the
  window. The result is the exception raised, if any, and the engine afterwards.
\<close>

definition compute_batch :: "Filter \<Rightarrow> exn option \<times> Filter" where
  "compute_batch F =
    (if int (length (flt_control_signal F)) \<noteq> flt_K1 F + flt_K2 F
     then (Some BufferUnderrunError, F)
     else
       (let mfs = forward_pass (flt_Af F) (flt_Bf F) (flt_mf F) (flt_control_signal F);
            mbs = backward_pass (flt_Ab F) (flt_Bb F) (zero_vec (length (flt_Ab F)))
                    (rev (flt_control_signal F)) [];
            k = nat (flt_K1 F);
            us = map (\<lambda>(f, b). mat_vec (flt_WT F) (vec_add f b)) (take k (zip mfs mbs))
        in (None, F\<lparr>flt_estimate := us,
                     flt_mf := last (flt_mf F # take k mfs),
                     flt_control_signal := drop k (flt_control_signal F)\<rparr>)))"

text \<open>
  Modelled from the spec: the methods \<^verbatim>\<open>full\<close>, \<^verbatim>\<open>empty\<close> and \<^verbatim>\<open>input\<close> of the
  base class \<^verbatim>\<open>C_Digital_Estimator\<close>, which is not part of the sources. The window is
  full once it holds \<open>K1 + K2\<close> samples; the engine is empty when no resolved output
  sample is buffered; \<^verbatim>\<open>input\<close> appends one control sample to the window.
\<close>

definition full :: "Filter \<Rightarrow> bool" where
  "full F \<longleftrightarrow> flt_K1 F + flt_K2 F \<le> int (length (flt_control_signal F))"

definition empty :: "Filter \<Rightarrow> bool" where
  "empty F \<longleftrightarrow> flt_estimate F = []"

definition input :: "sample \<Rightarrow> Filter \<Rightarrow> Filter" where
  "input s F = F\<lparr>flt_control_signal := flt_control_signal F @ [s]\<rparr>"

text \<open>
  Modelled from the spec: the method \<^verbatim>\<open>output\<close> of the base class, which returns and
  consumes the oldest buffered output sample. The counter \<^verbatim>\<open>_iteration\<close> is read by
  \<^verbatim>\<open>__next__\<close> and written by the base class only; neither the sources nor the spec say
  how it advances, so the update is the parameter \<open>tick\<close>, applied when a sample is handed
  out. \<^verbatim>\<open>__next__\<close> calls \<^verbatim>\<open>output\<close> on a non-empty engine only; on an empty one the
  model reports an underrun and changes nothing.
\<close>

definition output_estimate ::
  "(int \<Rightarrow> int) \<Rightarrow> DigitalEstimator \<Rightarrow> (exn + vec) \<times> DigitalEstimator" where
  "output_estimate tick st =
    (case flt_estimate (est_filter st) of
       [] \<Rightarrow> (Inl BufferUnderrunError, st)
     | u # us \<Rightarrow> (Inr u, st\<lparr>est_filter := (est_filter st)\<lparr>flt_estimate := us\<rparr>,
                           est_iteration := tick (est_iteration st)\<rparr>))"

section \<open>The streaming adapter\<close>

text \<open>
  \<^verbatim>\<open>next(self._s)\<close>: the next sample of the upstream source, or \<open>StopIteration\<close>
  when it is exhausted (an exhausted source stays exhausted).
\<close>

definition next_s :: "source \<Rightarrow> exn + sample \<times> source" where
  "next_s s = (case src_feed s (src_pos s) of
                 None \<Rightarrow> Inl StopIteration
               | Some x \<Rightarrow> Inr (x, s\<lparr>src_pos := Suc (src_pos s)\<rparr>))"

text \<open>
  The loop \<^verbatim>\<open>while(not self.full()): self.input(next(self._s))\<close> of \<^verbatim>\<open>__next__\<close>.
  An exception of the source leaves the loop with the samples fed so far still in the
  window. Each round adds one sample to a window that is not full, which bounds the loop.
\<close>

function fill :: "DigitalEstimator \<Rightarrow> exn option \<times> DigitalEstimator" where
  "fill st =
    (if full (est_filter st) then (None, st)
     else (case next_s (est_s st) of
             Inl e \<Rightarrow> (Some e, st)
           | Inr (x, s') \<Rightarrow> fill (st\<lparr>est_s := s', est_filter := input x (est_filter st)\<rparr>)))"
  by pat_completeness auto
termination
  by (relation "measure (\<lambda>st. nat (flt_K1 (est_filter st) + flt_K2 (est_filter st)
                       - int (length (flt_control_signal (est_filter st)))))")
     (auto simp: full_def input_def)

text \<open>
  \<^verbatim>\<open>DigitalEstimator.__next__\<close>, in the order of the source: the check of the
  iteration cap (\<^verbatim>\<open>self._size\<close> is true when it is not \<open>0\<close>), the buffered output, the
  refill of the window, \<^verbatim>\<open>compute_batch\<close> and the call of \<^verbatim>\<open>__next__\<close> itself. The
  result is the value returned or the exception raised, and the estimator afterwards;
  \<open>None\<close> stands for a call that does not return.
\<close>

partial_function (option) DigitalEstimator_next ::
  "(int \<Rightarrow> int) \<Rightarrow> DigitalEstimator \<Rightarrow> ((exn + vec) \<times> DigitalEstimator) option" where
  "DigitalEstimator_next tick st =
    (if est_size st \<noteq> 0 \<and> est_size st < est_iteration st then Some (Inl StopIteration, st)
     else if \<not> empty (est_filter st) then Some (output_estimate tick st)
     else (case fill st of
             (Some e, st1) \<Rightarrow> Some (Inl e, st1)
           | (None, st1) \<Rightarrow>
               (case compute_batch (est_filter st1) of
                  (Some e, F) \<Rightarrow> Some (Inl e, st1\<lparr>est_filter := F\<rparr>)
                | (None, F) \<Rightarrow> DigitalEstimator_next tick (st1\<lparr>est_filter := F\<rparr>))))"

declare DigitalEstimator_next.simps [code]

text \<open>
  A caller that pulls \<open>n\<close> times, as \<^verbatim>\<open>iterate_number_of_times\<close> of the examples does,
  and records the outcome of every pull, exception or sample.
\<close>

fun pulls ::
  "(int \<Rightarrow> int) \<Rightarrow> nat \<Rightarrow> DigitalEstimator \<Rightarrow> ((exn + vec) list \<times> DigitalEstimator) option" where
  "pulls tick 0 st = Some ([], st)"
| "pulls tick (Suc n) st =
     (case DigitalEstimator_next tick st of
        None \<Rightarrow> None
      | Some (r, st1) \<Rightarrow>
          (case pulls tick n st1 of
             None \<Rightarrow> None
           | Some (rs, st2) \<Rightarrow> Some (r # rs, st2)))"

section \<open>The recursions of the specification\<close>

text \<open>
  The sequences of section 4.3 in the words of the specification, with samples
  \<open>s\<^sub>1, \<dots>, s\<^sub>n\<close> (\<open>s\<^sub>i\<close> is \<open>ss ! (i - 1)\<close>): \<open>mf\<^sub>0\<close> is the carried state and
  \<open>mf\<^sub>i = Af\<cdot>mf\<^sub>i\<^sub>-\<^sub>1 + Bf\<cdot>s\<^sub>i\<close>; \<open>mb\<^sub>n\<^sub>+\<^sub>1 = 0\<close> and \<open>mb\<^sub>i = Ab\<cdot>mb\<^sub>i\<^sub>+\<^sub>1 + Bb\<cdot>s\<^sub>i\<close>.
  \<open>batch_outputs\<close> is the list of the outputs \<open>u\<^sub>i = WT\<cdot>(mf\<^sub>i + mb\<^sub>i)\<close> for \<open>i = 1..K1\<close>.
\<close>

fun mf_at :: "mat \<Rightarrow> mat \<Rightarrow> vec \<Rightarrow> sample list \<Rightarrow> nat \<Rightarrow> vec" where
  "mf_at Af Bf mf0 ss 0 = mf0"
| "mf_at Af Bf mf0 ss (Suc i) = step Af Bf (mf_at Af Bf mf0 ss i) (ss ! i)"

function mb_at :: "mat \<Rightarrow> mat \<Rightarrow> sample list \<Rightarrow> nat \<Rightarrow> vec" where
  "mb_at Ab Bb ss i =
     (if length ss < i then zero_vec (length Ab)
      else step Ab Bb (mb_at Ab Bb ss (Suc i)) (ss ! (i - 1)))"
  by pat_completeness auto
termination
  by (relation "measure (\<lambda>(Ab, Bb, ss, i). Suc (length ss) - i)") auto

declare mb_at.simps [simp del]

definition batch_outputs :: "Filter \<Rightarrow> vec list" where
  "batch_outputs F =
     map (\<lambda>i. mat_vec (flt_WT F)
                (vec_add (mf_at (flt_Af F) (flt_Bf F) (flt_mf F) (flt_control_signal F) i)
                         (mb_at (flt_Ab F) (flt_Bb F) (flt_control_signal F) i)))
         [1..<Suc (nat (flt_K1 F))]"

section \<open>Auxiliary notions\<close>

text \<open>
  \<open>upcoming s n\<close> are the next \<open>n\<close> samples of a source; \<open>filled st n\<close> is the estimator
  after exactly \<open>n\<close> samples have moved from the source into the window. A vector, a
  sample or an estimator state is zero when all its numbers are: for a state, the carried
  forward state, the buffered outputs, the window and whatever the source will yield.
\<close>

definition upcoming :: "source \<Rightarrow> nat \<Rightarrow> sample list" where
  "upcoming s n = map (\<lambda>j. the (src_feed s (src_pos s + j))) [0..<n]"

definition filled :: "DigitalEstimator \<Rightarrow> nat \<Rightarrow> DigitalEstimator" where
  "filled st n =
     st\<lparr>est_s := (est_s st)\<lparr>src_pos := src_pos (est_s st) + n\<rparr>,
        est_filter := (est_filter st)\<lparr>flt_control_signal :=
                        flt_control_signal (est_filter st) @ upcoming (est_s st) n\<rparr>\<rparr>"

definition zero_vector :: "vec \<Rightarrow> bool" where
  "zero_vector v \<longleftrightarrow> (\<forall>x\<in>set v. x = 0)"

definition zero_sample :: "sample \<Rightarrow> bool" where
  "zero_sample s \<longleftrightarrow> (\<forall>x\<in>set s. x = 0)"

definition zero_state :: "DigitalEstimator \<Rightarrow> bool" where
  "zero_state st \<longleftrightarrow>
     zero_vector (flt_mf (est_filter st)) \<and>
     (\<forall>u\<in>set (flt_estimate (est_filter st)). zero_vector u) \<and>
     (\<forall>s\<in>set (flt_control_signal (est_filter st)). zero_sample s) \<and>
     (\<forall>n s. src_feed (est_s st) n = Some s \<longrightarrow> zero_sample s)"

text \<open>
  A well-formed estimator: the configuration passed the checks of the constructor and
  the window holds at most \<open>K1 + K2\<close> samples.
\<close>

definition wf_estimator :: "DigitalEstimator \<Rightarrow> bool" where
  "wf_estimator st \<longleftrightarrow>
     1 \<le> flt_K1 (est_filter st) \<and> 0 \<le> flt_K2 (est_filter st) \<and>
     int (length (flt_control_signal (est_filter st)))
       \<le> flt_K1 (est_filter st) + flt_K2 (est_filter st)"

section \<open>Example inputs\<close>

text \<open>
  \<^verbatim>\<open>dummy_control_sequence_signal\<close> of the examples yields \<^verbatim>\<open>np.zeros(M)\<close> for ever;
  \<open>finite_source\<close> is an iterator over a list. \<open>example_filter\<close> is an engine with one
  state and one control, \<open>K1 = 2\<close> and \<open>K2 = 1\<close>; \<open>tick1\<close> counts the samples handed out.
\<close>

definition dummy_control_sequence_signal :: "nat \<Rightarrow> source" where
  "dummy_control_sequence_signal M = \<lparr>src_feed = (\<lambda>n. Some (replicate M 0)), src_pos = 0\<rparr>"

definition finite_source :: "sample list \<Rightarrow> source" where
  "finite_source xs =
     \<lparr>src_feed = (\<lambda>n. if n < length xs then Some (xs ! n) else None), src_pos = 0\<rparr>"

definition example_filter :: Filter where
  "example_filter =
     \<lparr>flt_Af = [[1/2]], flt_Ab = [[1/4]], flt_Bf = [[1]], flt_Bb = [[1]], flt_WT = [[2]],
      flt_control_signal = [], flt_estimate = [], flt_K1 = 2, flt_K2 = 1, flt_mf = [0]\<rparr>"

definition example_estimator :: "source \<Rightarrow> int \<Rightarrow> int \<Rightarrow> DigitalEstimator" where
  "example_estimator s n i =
     \<lparr>est_filter = example_filter, est_s = s, est_size = n, est_iteration = i\<rparr>"

definition tick1 :: "int \<Rightarrow> int" where
  "tick1 i = i + 1"

section \<open>Lemmas on the engine and the adapter\<close>

subsection \<open>The cap check and the refill loop\<close>

lemma next_cap: 
  assumes "est_size st \<noteq> 0" "est_size st < est_iteration st"
  shows "DigitalEstimator_next tick st = Some (Inl StopIteration, st)"
  using assms by (subst DigitalEstimator_next.simps) simp

lemma fill_exhausted:
  assumes "int (length (flt_control_signal (est_filter st))) + int j
             < flt_K1 (est_filter st) + flt_K2 (est_filter st)"
    and "src_feed (est_s st) (src_pos (est_s st) + j) = None"
  shows "\<exists>st1. fill st = (Some StopIteration, st1)"
  using assms
proof (induction j arbitrary: st)
  case 0
  then show ?case by (subst fill.simps) (simp add: full_def next_s_def)
next
  case (Suc j)
  have nf: "\<not> full (est_filter st)" using Suc.prems(1) by (simp add: full_def)
  show ?case
  proof (cases "src_feed (est_s st) (src_pos (est_s st))")
    case None
    then show ?thesis using nf by (subst fill.simps) (simp add: next_s_def)
  next
    case (Some x)
    let ?st = "st\<lparr>est_s := (est_s st)\<lparr>src_pos := Suc (src_pos (est_s st))\<rparr>,
                   est_filter := input x (est_filter st)\<rparr>"
    have "\<exists>st1. fill ?st = (Some StopIteration, st1)"
      using Suc.prems by (intro Suc.IH) (simp_all add: input_def)
    moreover have "fill st = fill ?st"
      using nf Some by (subst fill.simps) (simp add: next_s_def)
    ultimately show ?thesis by simp
  qed
qed

lemma fill_ok:
  assumes "int (length (flt_control_signal (est_filter st))) + int need
             = flt_K1 (est_filter st) + flt_K2 (est_filter st)"
    and "\<forall>j<need. src_feed (est_s st) (src_pos (est_s st) + j) \<noteq> None"
  shows "fill st = (None, st\<lparr>est_s := (est_s st)\<lparr>src_pos := src_pos (est_s st) + need\<rparr>,
                             est_filter := (est_filter st)\<lparr>flt_control_signal :=
                                flt_control_signal (est_filter st) @ upcoming (est_s st) need\<rparr>\<rparr>)"
  using assms
proof (induction need arbitrary: st)
  case 0
  then show ?case by (subst fill.simps) (simp add: full_def upcoming_def)
next
  case (Suc need)
  have nf: "\<not> full (est_filter st)" using Suc.prems(1) by (simp add: full_def)
  from Suc.prems(2) obtain x where x: "src_feed (est_s st) (src_pos (est_s st)) = Some x"
    by (metis add.right_neutral not_None_eq zero_less_Suc)
  let ?st = "st\<lparr>est_s := (est_s st)\<lparr>src_pos := Suc (src_pos (est_s st))\<rparr>,
                 est_filter := input x (est_filter st)\<rparr>"
  have step: "fill st = fill ?st"
    using nf x by (subst fill.simps) (simp add: next_s_def)
  have "[0..<Suc need] = 0 # map Suc [0..<need]"
    by (simp add: upt_conv_Cons map_Suc_upt del: upt_Suc)
  then have up: "upcoming (est_s st) (Suc need) = x # upcoming (est_s ?st) need"
    using x by (simp add: upcoming_def o_def del: upt_Suc)
  have "fill ?st = (None, ?st\<lparr>est_s := (est_s ?st)\<lparr>src_pos := src_pos (est_s ?st) + need\<rparr>,
                             est_filter := (est_filter ?st)\<lparr>flt_control_signal :=
                                flt_control_signal (est_filter ?st) @ upcoming (est_s ?st) need\<rparr>\<rparr>)"
  proof (rule Suc.IH)
    show "int (length (flt_control_signal (est_filter ?st))) + int need
            = flt_K1 (est_filter ?st) + flt_K2 (est_filter ?st)"
      using Suc.prems(1) by (simp add: input_def)
    show "\<forall>j<need. src_feed (est_s ?st) (src_pos (est_s ?st) + j) \<noteq> None"
    proof (intro allI impI)
      fix j assume "j < need"
      then have "src_feed (est_s st) (src_pos (est_s st) + Suc j) \<noteq> None"
        using Suc.prems(2) by (meson Suc_less_eq)
      then show "src_feed (est_s ?st) (src_pos (est_s ?st) + j) \<noteq> None" by simp
    qed
  qed
  then show ?case
    unfolding step up by (simp add: input_def)
qed

subsection \<open>The passes compute the recursions of the specification\<close>

lemma length_forward_pass: "length (forward_pass A B m ss) = length ss"
  by (induction ss arbitrary: m) (simp_all add: Let_def)

lemma mf_at_Cons: "mf_at A B m (s # ss) (Suc i) = mf_at A B (step A B m s) ss i"
  by (induction i) simp_all

lemma forward_pass_nth:
  "i < length ss \<Longrightarrow> forward_pass A B m ss ! i = mf_at A B m ss (Suc i)"
proof (induction ss arbitrary: m i)
  case Nil
  then show ?case by simp
next
  case (Cons s ss)
  show ?case
  proof (cases i)
    case 0
    then show ?thesis by (simp add: Let_def)
  next
    case (Suc j)
    then have "j < length ss" using Cons.prems by simp
    then have "forward_pass A B (step A B m s) ss ! j = mf_at A B (step A B m s) ss (Suc j)"
      by (rule Cons.IH)
    then show ?thesis using Suc by (simp add: Let_def mf_at_Cons del: mf_at.simps)
  qed
qed

lemma backward_pass_rev:
  "backward_pass A B m rs acc = rev (forward_pass A B m rs) @ acc"
  by (induction rs arbitrary: m acc) (simp_all add: Let_def)

lemma mf_at_rev_mb_at:
  "d \<le> length ss \<Longrightarrow>
     mf_at Ab Bb (zero_vec (length Ab)) (rev ss) d = mb_at Ab Bb ss (Suc (length ss) - d)"
proof (induction d)
  case 0
  then show ?case by (subst mb_at.simps) simp
next
  case (Suc d)
  then have d: "d < length ss" by simp
  have "\<not> length ss < Suc (length ss) - Suc d" by arith
  then have "mb_at Ab Bb ss (Suc (length ss) - Suc d)
          = step Ab Bb (mb_at Ab Bb ss (Suc (Suc (length ss) - Suc d)))
              (ss ! (Suc (length ss) - Suc d - 1))"
    by (subst mb_at.simps) (simp only: if_False)
  then have "mb_at Ab Bb ss (Suc (length ss) - Suc d)
          = step Ab Bb (mb_at Ab Bb ss (Suc (length ss - d))) (ss ! (length ss - d - 1))"
    by simp
  moreover have "Suc (length ss - d) = Suc (length ss) - d" using d by simp
  moreover have "rev ss ! d = ss ! (length ss - d - 1)" using d by (simp add: rev_nth)
  ultimately show ?case using Suc.IH d by simp
qed

lemma backward_pass_nth:
  assumes "i < length ss"
  shows "backward_pass Ab Bb (zero_vec (length Ab)) (rev ss) [] ! i = mb_at Ab Bb ss (Suc i)"
proof -
  let ?fw = "forward_pass Ab Bb (zero_vec (length Ab)) (rev ss)"
  have len: "length ?fw = length ss" by (simp add: length_forward_pass)
  have "rev ?fw ! i = ?fw ! (length ss - Suc i)"
    using assms len by (simp add: rev_nth)
  also have "\<dots> = mf_at Ab Bb (zero_vec (length Ab)) (rev ss) (Suc (length ss - Suc i))"
    using assms by (intro forward_pass_nth) simp
  also have "\<dots> = mb_at Ab Bb ss (Suc (length ss) - Suc (length ss - Suc i))"
    using assms by (intro mf_at_rev_mb_at) simp
  also have "Suc (length ss) - Suc (length ss - Suc i) = Suc i"
    using assms by simp
  finally show ?thesis by (simp add: backward_pass_rev)
qed

lemma compute_batch_estimate:
  assumes "int (length (flt_control_signal F)) = flt_K1 F + flt_K2 F" "0 \<le> flt_K2 F"
  shows "compute_batch F = (None, F\<lparr>flt_estimate := batch_outputs F,
            flt_mf := mf_at (flt_Af F) (flt_Bf F) (flt_mf F) (flt_control_signal F) (nat (flt_K1 F)),
            flt_control_signal := drop (nat (flt_K1 F)) (flt_control_signal F)\<rparr>)"
proof -
  let ?ss = "flt_control_signal F"
  let ?k = "nat (flt_K1 F)"
  let ?mfs = "forward_pass (flt_Af F) (flt_Bf F) (flt_mf F) ?ss"
  let ?mbs = "backward_pass (flt_Ab F) (flt_Bb F) (zero_vec (length (flt_Ab F))) (rev ?ss) []"
  have k: "?k \<le> length ?ss" using assms by linarith
  have lf: "length ?mfs = length ?ss" by (simp add: length_forward_pass)
  have lb: "length ?mbs = length ?ss" by (simp add: backward_pass_rev length_forward_pass)
  have est: "map (\<lambda>(f, b). mat_vec (flt_WT F) (vec_add f b)) (take ?k (zip ?mfs ?mbs))
               = batch_outputs F"
  proof (rule nth_equalityI)
    show "length (map (\<lambda>(f, b). mat_vec (flt_WT F) (vec_add f b)) (take ?k (zip ?mfs ?mbs)))
            = length (batch_outputs F)"
      using k lf lb by (simp add: batch_outputs_def)
  next
    fix i assume "i < length (map (\<lambda>(f, b). mat_vec (flt_WT F) (vec_add f b)) (take ?k (zip ?mfs ?mbs)))"
    then have i: "i < ?k" by simp
    then have il: "i < length ?ss" using k by simp
    have "map (\<lambda>(f, b). mat_vec (flt_WT F) (vec_add f b)) (take ?k (zip ?mfs ?mbs)) ! i
            = mat_vec (flt_WT F) (vec_add (?mfs ! i) (?mbs ! i))"
      using i il lf lb by simp
    also have "\<dots> = batch_outputs F ! i"
      using i il unfolding batch_outputs_def
      by (simp add: forward_pass_nth backward_pass_nth nth_map_upt del: upt_Suc mf_at.simps)
    finally show "map (\<lambda>(f, b). mat_vec (flt_WT F) (vec_add f b)) (take ?k (zip ?mfs ?mbs)) ! i
            = batch_outputs F ! i" .
  qed
  have mf: "last (flt_mf F # take ?k ?mfs)
              = mf_at (flt_Af F) (flt_Bf F) (flt_mf F) ?ss ?k"
  proof (cases ?k)
    case 0
    then show ?thesis by simp
  next
    case (Suc j)
    then have j: "j < length ?ss" using k by simp
    have "take ?k ?mfs \<noteq> []" using Suc j lf by auto
    then have "last (flt_mf F # take ?k ?mfs) = take ?k ?mfs ! j"
      using Suc j lf by (simp add: last_conv_nth)
    also have "\<dots> = ?mfs ! j" using Suc by simp
    also have "\<dots> = mf_at (flt_Af F) (flt_Bf F) (flt_mf F) ?ss (Suc j)"
      using j by (rule forward_pass_nth)
    finally show ?thesis using Suc by simp
  qed
  show ?thesis
    using assms(1) unfolding compute_batch_def Let_def est mf by simp
qed

subsection \<open>Zero states stay zero\<close>

lemma dot_product_zero: "zero_vector x \<Longrightarrow> dot_product row x = 0"
  unfolding dot_product_def zero_vector_def
proof (induction row arbitrary: x)
  case Nil
  then show ?case by simp
next
  case (Cons r row)
  then show ?case by (cases x) simp_all
qed

lemma mat_vec_zero: "zero_vector x \<Longrightarrow> zero_vector (mat_vec A x)"
  by (simp add: mat_vec_def dot_product_zero) (simp add: zero_vector_def)

lemma vec_add_zero: "zero_vector x \<Longrightarrow> zero_vector y \<Longrightarrow> zero_vector (vec_add x y)"
  unfolding vec_add_def zero_vector_def
proof
  fix v assume "v \<in> set (map2 (+) x y)"
  then obtain a b where ab: "(a, b) \<in> set (zip x y)" and v: "v = a + b" by auto
  from ab have "a \<in> set x" "b \<in> set y" by (auto dest: set_zip_leftD set_zip_rightD)
  moreover assume "\<forall>x\<in>set x. x = 0" "\<forall>x\<in>set y. x = 0"
  ultimately show "v = 0" using v by auto
qed

lemma as_vec_zero: "zero_sample s \<Longrightarrow> zero_vector (as_vec s)"
  by (auto simp: as_vec_def zero_sample_def zero_vector_def)

lemma zero_vec_zero: "zero_vector (zero_vec n)"
  by (simp add: zero_vec_def zero_vector_def)

lemma step_zero: "zero_vector m \<Longrightarrow> zero_sample s \<Longrightarrow> zero_vector (step A B m s)"
  by (simp add: step_def vec_add_zero mat_vec_zero as_vec_zero)

lemma forward_pass_zero:
  "zero_vector m \<Longrightarrow> \<forall>s\<in>set ss. zero_sample s \<Longrightarrow>
     \<forall>v\<in>set (forward_pass A B m ss). zero_vector v"
proof (induction ss arbitrary: m)
  case Nil
  then show ?case by simp
next
  case (Cons s ss)
  have "zero_vector (step A B m s)" using Cons.prems by (simp add: step_zero)
  moreover have "\<forall>v\<in>set (forward_pass A B (step A B m s) ss). zero_vector v"
    using Cons.prems by (intro Cons.IH) (simp_all add: step_zero)
  ultimately show ?case by (simp add: Let_def)
qed

lemma compute_batch_zero:
  assumes "zero_vector (flt_mf F)" "\<forall>s\<in>set (flt_control_signal F). zero_sample s"
    and "compute_batch F = (None, F')"
  shows "zero_vector (flt_mf F') \<and> (\<forall>u\<in>set (flt_estimate F'). zero_vector u)
           \<and> (\<forall>s\<in>set (flt_control_signal F'). zero_sample s)"
proof -
  let ?ss = "flt_control_signal F"
  let ?k = "nat (flt_K1 F)"
  let ?mfs = "forward_pass (flt_Af F) (flt_Bf F) (flt_mf F) ?ss"
  let ?mbs = "backward_pass (flt_Ab F) (flt_Bb F) (zero_vec (length (flt_Ab F))) (rev ?ss) []"
  have F': "F' = F\<lparr>flt_estimate := map (\<lambda>(f, b). mat_vec (flt_WT F) (vec_add f b))
                                      (take ?k (zip ?mfs ?mbs)),
                   flt_mf := last (flt_mf F # take ?k ?mfs),
                   flt_control_signal := drop ?k ?ss\<rparr>"
  proof -
    have len: "int (length ?ss) = flt_K1 F + flt_K2 F"
      using assms(3) by (auto simp: compute_batch_def split: if_splits)
    have "compute_batch F = (None, F\<lparr>flt_estimate := map (\<lambda>(f, b). mat_vec (flt_WT F) (vec_add f b))
                                      (take ?k (zip ?mfs ?mbs)),
                   flt_mf := last (flt_mf F # take ?k ?mfs),
                   flt_control_signal := drop ?k ?ss\<rparr>)"
      unfolding compute_batch_def Let_def by (simp only: len simp_thms if_False)
    then show ?thesis using assms(3) by simp
  qed
  have zf: "\<forall>v\<in>set ?mfs. zero_vector v"
    using assms(1,2) by (rule forward_pass_zero)
  have zb: "\<forall>v\<in>set ?mbs. zero_vector v"
    using forward_pass_zero [of "zero_vec (length (flt_Ab F))" "rev ?ss" "flt_Ab F" "flt_Bb F"]
      assms(2) by (simp add: backward_pass_rev zero_vec_zero)
  have mf: "zero_vector (last (flt_mf F # take ?k ?mfs))"
  proof (cases "take ?k ?mfs = []")
    case True
    then show ?thesis using assms(1) by simp
  next
    case False
    then have "last (flt_mf F # take ?k ?mfs) \<in> set (take ?k ?mfs)" by simp
    then have "last (flt_mf F # take ?k ?mfs) \<in> set ?mfs" by (rule in_set_takeD)
    then show ?thesis using zf by blast
  qed
  have est: "\<forall>u\<in>set (map (\<lambda>(f, b). mat_vec (flt_WT F) (vec_add f b)) (take ?k (zip ?mfs ?mbs))).
               zero_vector u"
  proof
    fix u assume "u \<in> set (map (\<lambda>(f, b). mat_vec (flt_WT F) (vec_add f b)) (take ?k (zip ?mfs ?mbs)))"
    then obtain f b where fb: "(f, b) \<in> set (take ?k (zip ?mfs ?mbs))"
      and u: "u = mat_vec (flt_WT F) (vec_add f b)" by auto
    from fb have "(f, b) \<in> set (zip ?mfs ?mbs)" by (rule in_set_takeD)
    then have "f \<in> set ?mfs" "b \<in> set ?mbs" by (auto dest: set_zip_leftD set_zip_rightD)
    then show "zero_vector u" using zf zb u by (simp add: mat_vec_zero vec_add_zero)
  qed
  have buf: "\<forall>s\<in>set (drop ?k ?ss). zero_sample s"
    using assms(2) by (meson in_set_dropD)
  show ?thesis unfolding F' using mf est buf by simp
qed

lemma fill_zero: "zero_state st \<Longrightarrow> zero_state (snd (fill st))"
proof (induction st rule: fill.induct)
  case (1 st)
  show ?case
  proof (cases "full (est_filter st)")
    case True
    then show ?thesis using "1.prems" by (subst fill.simps) simp
  next
    case nf: False
    show ?thesis
    proof (cases "next_s (est_s st)")
      case (Inl e)
      then show ?thesis using nf "1.prems" by (subst fill.simps) simp
    next
      case (Inr p)
      obtain x s' where p: "p = (x, s')" by (cases p)
      let ?st = "st\<lparr>est_s := s', est_filter := input x (est_filter st)\<rparr>"
      from Inr p have x: "src_feed (est_s st) (src_pos (est_s st)) = Some x"
        and s': "s' = (est_s st)\<lparr>src_pos := Suc (src_pos (est_s st))\<rparr>"
        by (auto simp: next_s_def split: option.splits)
      have "zero_sample x" using x "1.prems" unfolding zero_state_def by blast
      then have "zero_state ?st"
        using "1.prems" s' by (simp add: zero_state_def input_def)
      then have "zero_state (snd (fill ?st))"
        using nf Inr p by (intro "1.IH") simp_all
      moreover have "fill st = fill ?st"
        using nf Inr p by (subst fill.simps) simp
      ultimately show ?thesis by simp
    qed
  qed
qed

lemma output_estimate_zero:
  assumes "zero_state st" "output_estimate tick st = (r, st1)"
  shows "zero_state st1 \<and> (\<forall>u. r = Inr u \<longrightarrow> zero_vector u)"
  using assms by (auto simp: output_estimate_def zero_state_def split: list.splits)

lemma next_zero:
  assumes "DigitalEstimator_next tick st = Some y"
  shows "zero_state st \<longrightarrow> zero_state (snd y) \<and> (\<forall>u. fst y = Inr u \<longrightarrow> zero_vector u)"
proof (rule DigitalEstimator_next.raw_induct
         [where P = "\<lambda>tick st y. zero_state st \<longrightarrow>
                       zero_state (snd y) \<and> (\<forall>u. fst y = Inr u \<longrightarrow> zero_vector u)",
          OF _ assms], goal_cases)
  case (1 nxt tick st y)
  show ?case
  proof
    assume z: "zero_state st"
    show "zero_state (snd y) \<and> (\<forall>u. fst y = Inr u \<longrightarrow> zero_vector u)"
    proof (cases "est_size st \<noteq> 0 \<and> est_size st < est_iteration st")
      case True
      then show ?thesis using "1"(2) z by auto
    next
      case cap: False
      show ?thesis
      proof (cases "empty (est_filter st)")
        case False
        then have "output_estimate tick st = y" using cap "1"(2) by (auto split: if_splits)
        then show ?thesis using output_estimate_zero [OF z, of tick "fst y" "snd y"] by simp
      next
        case True
        obtain e1 st1 where f: "fill st = (e1, st1)" by (cases "fill st")
        have z1: "zero_state st1" using fill_zero [OF z] f by simp
        show ?thesis
        proof (cases e1)
          case (Some e)
          then show ?thesis using cap True f z1 "1"(2) by (auto split: if_splits)
        next
          case None
          obtain e2 F where c: "compute_batch (est_filter st1) = (e2, F)"
            by (cases "compute_batch (est_filter st1)")
          show ?thesis
          proof (cases e2)
            case (Some e)
            then have F: "F = est_filter st1"
              using c by (simp add: compute_batch_def Let_def split: if_splits)
            have "y = (Inl e, st1\<lparr>est_filter := F\<rparr>)"
              using cap True f None c Some "1"(2) by (auto split: if_splits)
            then show ?thesis using z1 F by simp
          next
            case N2: None
            have "zero_state (st1\<lparr>est_filter := F\<rparr>)"
              using compute_batch_zero [of "est_filter st1" F] z1 c N2
              by (simp add: zero_state_def)
            moreover have "nxt tick (st1\<lparr>est_filter := F\<rparr>) = Some y"
              using cap True f None c N2 "1"(2) by (auto split: if_splits)
            ultimately show ?thesis using "1"(1) by blast
          qed
        qed
      qed
    qed
  qed
qed

lemma pulls_zero:
  assumes "zero_state st" "pulls tick n st = Some (rs, st1)"
  shows "\<forall>u. Inr u \<in> set rs \<longrightarrow> zero_vector u"
  using assms
proof (induction n arbitrary: st rs)
  case 0
  then show ?case by simp
next
  case (Suc n)
  from Suc.prems(2) obtain r st2 rs2 where
    nx: "DigitalEstimator_next tick st = Some (r, st2)"
    and ps: "pulls tick n st2 = Some (rs2, st1)" and rs: "rs = r # rs2"
    by (auto split: option.splits prod.splits)
  have "zero_state st2 \<and> (\<forall>u. r = Inr u \<longrightarrow> zero_vector u)"
    using next_zero [OF nx] Suc.prems(1) by simp
  then show ?case using Suc.IH [of st2 rs2] ps rs by auto
qed

subsection \<open>Every pull returns\<close>

text \<open>
  On a well-formed estimator every pull returns, with a sample or an exception, and
  leaves a well-formed estimator.
\<close>

lemma fill_wf:
  "wf_estimator st \<Longrightarrow>
     wf_estimator (snd (fill st)) \<and>
     est_size (snd (fill st)) = est_size st \<and>
     est_iteration (snd (fill st)) = est_iteration st \<and>
     (fst (fill st) = None \<longrightarrow> full (est_filter (snd (fill st))))"
proof (induction st rule: fill.induct)
  case (1 st)
  show ?case
  proof (cases "full (est_filter st)")
    case True
    then show ?thesis using "1.prems" by (subst (1 2 3 4 5) fill.simps) simp
  next
    case nf: False
    show ?thesis
    proof (cases "next_s (est_s st)")
      case (Inl e)
      then show ?thesis using nf "1.prems" by (subst (1 2 3 4 5) fill.simps) simp
    next
      case (Inr p)
      obtain x s' where p: "p = (x, s')" by (cases p)
      let ?st = "st\<lparr>est_s := s', est_filter := input x (est_filter st)\<rparr>"
      have "wf_estimator ?st"
        using "1.prems" nf by (simp add: wf_estimator_def input_def full_def)
      then have "wf_estimator (snd (fill ?st)) \<and>
         est_size (snd (fill ?st)) = est_size ?st \<and>
         est_iteration (snd (fill ?st)) = est_iteration ?st \<and>
         (fst (fill ?st) = None \<longrightarrow> full (est_filter (snd (fill ?st))))"
        using nf Inr p by (intro "1.IH") simp_all
      moreover have "fill st = fill ?st"
        using nf Inr p by (subst fill.simps) simp
      ultimately show ?thesis by simp
    qed
  qed
qed

lemma next_total:
  assumes "wf_estimator st"
  shows "\<exists>r st1. DigitalEstimator_next tick st = Some (r, st1) \<and> wf_estimator st1"
proof (cases "est_size st \<noteq> 0 \<and> est_size st < est_iteration st")
  case True
  then have "DigitalEstimator_next tick st = Some (Inl StopIteration, st)"
    by (subst DigitalEstimator_next.simps) simp
  then show ?thesis using assms by blast
next
  case cap: False
  have out: "\<exists>r st1. DigitalEstimator_next tick s = Some (r, st1) \<and> wf_estimator st1"
    if "wf_estimator s" "\<not> empty (est_filter s)"
       "\<not> (est_size s \<noteq> 0 \<and> est_size s < est_iteration s)" for s
  proof -
    have "DigitalEstimator_next tick s = Some (output_estimate tick s)"
      using that(2,3) by (subst DigitalEstimator_next.simps) auto
    moreover have "wf_estimator (snd (output_estimate tick s))"
      using that(1) by (simp add: output_estimate_def wf_estimator_def split: list.splits)
    ultimately show ?thesis by (metis prod.collapse)
  qed
  show ?thesis
  proof (cases "empty (est_filter st)")
    case False
    then show ?thesis using out [OF assms _ cap] by simp
  next
    case True
    obtain e st1 where f: "fill st = (e, st1)" by (cases "fill st")
    have w1: "wf_estimator st1" and sz: "est_size st1 = est_size st"
      and it: "est_iteration st1 = est_iteration st"
      and fu: "e = None \<longrightarrow> full (est_filter st1)"
      using fill_wf [OF assms] f by simp_all
    show ?thesis
    proof (cases e)
      case (Some x)
      then have "DigitalEstimator_next tick st = Some (Inl x, st1)"
        using cap True f by (subst DigitalEstimator_next.simps) auto
      then show ?thesis using w1 by blast
    next
      case None
      let ?F1 = "est_filter st1"
      have len: "int (length (flt_control_signal ?F1)) = flt_K1 ?F1 + flt_K2 ?F1"
        using w1 fu None by (simp add: wf_estimator_def full_def)
      have k2: "0 \<le> flt_K2 ?F1" using w1 by (simp add: wf_estimator_def)
      define F where "F = ?F1\<lparr>flt_estimate := batch_outputs ?F1,
            flt_mf := mf_at (flt_Af ?F1) (flt_Bf ?F1) (flt_mf ?F1) (flt_control_signal ?F1)
                        (nat (flt_K1 ?F1)),
            flt_control_signal := drop (nat (flt_K1 ?F1)) (flt_control_signal ?F1)\<rparr>"
      have cb: "compute_batch ?F1 = (None, F)"
        unfolding F_def using len k2 by (rule compute_batch_estimate)
      let ?st2 = "st1\<lparr>est_filter := F\<rparr>"
      have "0 < nat (flt_K1 ?F1)" using w1 unfolding wf_estimator_def by linarith
      then have ne: "\<not> empty (est_filter ?st2)"
        by (simp add: F_def empty_def batch_outputs_def)
      have w2: "wf_estimator ?st2"
        using w1 len by (simp add: F_def wf_estimator_def)
      have cap2: "\<not> (est_size ?st2 \<noteq> 0 \<and> est_size ?st2 < est_iteration ?st2)"
        using cap sz it by simp
      have "DigitalEstimator_next tick st = DigitalEstimator_next tick ?st2"
        using cap True f None cb by (subst DigitalEstimator_next.simps) auto
      then show ?thesis using out [OF w2 ne cap2] by simp
    qed
  qed
qed

lemma pulls_total:
  assumes "wf_estimator st"
  shows "\<exists>rs st1. pulls tick n st = Some (rs, st1) \<and> length rs = n \<and> wf_estimator st1"
  using assms
proof (induction n arbitrary: st)
  case 0
  then show ?case by simp
next
  case (Suc n)
  obtain r st1 where n1: "DigitalEstimator_next tick st = Some (r, st1)" and w1: "wf_estimator st1"
    using next_total [OF Suc.prems] by blast
  obtain rs st2 where p: "pulls tick n st1 = Some (rs, st2)" and l: "length rs = n"
    and w2: "wf_estimator st2"
    using Suc.IH [OF w1] by blast
  show ?case using n1 p l w2 by simp
qed

section \<open>The claims\<close>

subsection \<open>Construction\<close>

text \<open>
  C3. A construction with \<open>K1 < 1\<close> or with \<open>K2 < 0\<close> fails with one of the errors of the
  configuration checks, whatever the base class would do (also where its coefficient
  computation would fail): no estimator instance is produced.
\<close>

theorem init_rejects_bad_K1_K2:
  assumes "K1 < 1 \<or> K2 < 0"
  shows "\<exists>e \<in> configuration_errors.
           DigitalEstimator_init C_init s sys ctl eta2 K1 K2 stop = Inl e"
  using assms by (auto simp: DigitalEstimator_init_def configuration_errors_def)

theorem init_rejects_bad_K1_K2_witness:
  "((0::int) < 1 \<or> (0::int) < 0) \<and>
   DigitalEstimator_init (\<lambda>(a::unit) (c::unit) e k1 k2. Inl NumericalError)
      \<lparr>src_feed = (\<lambda>n. None), src_pos = 0\<rparr> () () 1 0 0 0
     = Inl (RaiseStr ''K1 must be a positive integer'')"
  using init_rejects_bad_K1_K2
    [of 0 0 "\<lambda>(a::unit) (c::unit) e k1 k2. Inl NumericalError"
        "\<lparr>src_feed = (\<lambda>n. None), src_pos = 0\<rparr>" "()" "()" 1 0]
  by (simp add: DigitalEstimator_init_def)

text \<open>
  C9. A negative \<^verbatim>\<open>stop_after_number_of_iterations\<close> is rejected by the first check of
  the constructor: the result is that error for every source, every \<open>K1\<close> and \<open>K2\<close> and
  every base-class constructor, so neither a sample of the source nor the coefficient
  computation is involved.
\<close>

theorem init_rejects_negative_stop:
  assumes "stop < 0"
  shows "DigitalEstimator_init C_init s sys ctl eta2 K1 K2 stop
           = Inl (RaiseStr ''stop_after_number_of_iterations must be non negative'')"
  using assms by (simp add: DigitalEstimator_init_def)

theorem init_rejects_negative_stop_witness:
  "(-1::int) < 0 \<and>
   DigitalEstimator_init (\<lambda>(a::unit) (c::unit) e k1 k2. Inl NumericalError)
      \<lparr>src_feed = (\<lambda>n. None), src_pos = 0\<rparr> () () 1 0 0 (-1)
     = Inl (RaiseStr ''stop_after_number_of_iterations must be non negative'')"
  using init_rejects_negative_stop
    [of "-1" "\<lambda>(a::unit) (c::unit) e k1 k2. Inl NumericalError"
        "\<lparr>src_feed = (\<lambda>n. None), src_pos = 0\<rparr>" "()" "()" 1 0 0]
  by simp

subsection \<open>The batch computation\<close>

text \<open>
  C1. On a full window of \<open>K1 + K2\<close> samples, with a valid \<open>K1\<close> and \<open>K2\<close> and any carried
  forward state, \<^verbatim>\<open>compute_batch\<close> succeeds; its forward pass computes \<open>mf\<^sub>i\<close> and its
  backward pass \<open>mb\<^sub>i\<close> for every \<open>i = 1..K1+K2\<close>, and it emits exactly the \<open>K1\<close> outputs
  \<open>WT\<cdot>(mf\<^sub>i + mb\<^sub>i)\<close>, \<open>i = 1..K1\<close>.
\<close>

theorem compute_batch_full_window:
  assumes "int (length (flt_control_signal F)) = flt_K1 F + flt_K2 F"
    and "1 \<le> flt_K1 F" and "0 \<le> flt_K2 F"
  shows "\<exists>F'. compute_batch F = (None, F') \<and>
           (\<forall>i. 1 \<le> i \<and> i \<le> length (flt_control_signal F) \<longrightarrow>
              forward_pass (flt_Af F) (flt_Bf F) (flt_mf F) (flt_control_signal F) ! (i - 1)
                = mf_at (flt_Af F) (flt_Bf F) (flt_mf F) (flt_control_signal F) i) \<and>
           (\<forall>i. 1 \<le> i \<and> i \<le> length (flt_control_signal F) \<longrightarrow>
              backward_pass (flt_Ab F) (flt_Bb F) (zero_vec (length (flt_Ab F)))
                  (rev (flt_control_signal F)) [] ! (i - 1)
                = mb_at (flt_Ab F) (flt_Bb F) (flt_control_signal F) i) \<and>
           int (length (flt_estimate F')) = flt_K1 F \<and>
           flt_estimate F' = batch_outputs F"
proof -
  let ?ss = "flt_control_signal F"
  have fw: "\<forall>i. 1 \<le> i \<and> i \<le> length ?ss \<longrightarrow>
              forward_pass (flt_Af F) (flt_Bf F) (flt_mf F) ?ss ! (i - 1)
                = mf_at (flt_Af F) (flt_Bf F) (flt_mf F) ?ss i"
  proof (intro allI impI)
    fix i assume i: "1 \<le> i \<and> i \<le> length ?ss"
    then have "i - 1 < length ?ss" and "Suc (i - 1) = i" by auto
    then show "forward_pass (flt_Af F) (flt_Bf F) (flt_mf F) ?ss ! (i - 1)
                = mf_at (flt_Af F) (flt_Bf F) (flt_mf F) ?ss i"
      using forward_pass_nth [of "i - 1" ?ss "flt_Af F" "flt_Bf F" "flt_mf F"] by simp
  qed
  have bw: "\<forall>i. 1 \<le> i \<and> i \<le> length ?ss \<longrightarrow>
              backward_pass (flt_Ab F) (flt_Bb F) (zero_vec (length (flt_Ab F))) (rev ?ss) []
                  ! (i - 1)
                = mb_at (flt_Ab F) (flt_Bb F) ?ss i"
  proof (intro allI impI)
    fix i assume i: "1 \<le> i \<and> i \<le> length ?ss"
    then have "i - 1 < length ?ss" and "Suc (i - 1) = i" by auto
    then show "backward_pass (flt_Ab F) (flt_Bb F) (zero_vec (length (flt_Ab F))) (rev ?ss) []
                  ! (i - 1)
                = mb_at (flt_Ab F) (flt_Bb F) ?ss i"
      using backward_pass_nth [of "i - 1" ?ss "flt_Ab F" "flt_Bb F"] by simp
  qed
  have "int (length (batch_outputs F)) = flt_K1 F"
    using assms(2) by (simp add: batch_outputs_def)
  then show ?thesis
    using compute_batch_estimate [OF assms(1,3)] fw bw by simp
qed

theorem compute_batch_full_window_witness:
  "int (length (flt_control_signal (example_filter\<lparr>flt_control_signal := [[1], [1], [1]]\<rparr>)))
     = flt_K1 (example_filter\<lparr>flt_control_signal := [[1], [1], [1]]\<rparr>)
       + flt_K2 (example_filter\<lparr>flt_control_signal := [[1], [1], [1]]\<rparr>) \<and>
   1 \<le> flt_K1 (example_filter\<lparr>flt_control_signal := [[1], [1], [1]]\<rparr>) \<and>
   0 \<le> flt_K2 (example_filter\<lparr>flt_control_signal := [[1], [1], [1]]\<rparr>) \<and>
   compute_batch (example_filter\<lparr>flt_control_signal := [[1], [1], [1]]\<rparr>)
     = (None, example_filter\<lparr>flt_estimate := [[37/8], [11/2]], flt_mf := [3/2],
                             flt_control_signal := [[1]]\<rparr>) \<and>
   batch_outputs (example_filter\<lparr>flt_control_signal := [[1], [1], [1]]\<rparr>) = [[37/8], [11/2]]"
proof -
  let ?F = "example_filter\<lparr>flt_control_signal := [[1], [1], [1]]\<rparr>"
  have h1: "int (length (flt_control_signal ?F)) = flt_K1 ?F + flt_K2 ?F"
    by (simp add: example_filter_def)
  have h2: "1 \<le> flt_K1 ?F" by (simp add: example_filter_def)
  have h3: "0 \<le> flt_K2 ?F" by (simp add: example_filter_def)
  have cb: "compute_batch ?F
     = (None, example_filter\<lparr>flt_estimate := [[37/8], [11/2]], flt_mf := [3/2],
                             flt_control_signal := [[1]]\<rparr>)"
    by (simp add: compute_batch_def example_filter_def Let_def step_def vec_add_def
          mat_vec_def dot_product_def as_vec_def zero_vec_def)
  show ?thesis
    using h1 h2 h3 cb compute_batch_full_window [OF h1 h2 h3] by auto
qed

text \<open>
  C6. \<^verbatim>\<open>compute_batch\<close> on a window of fewer than \<open>K1 + K2\<close> samples fails with a
  \<open>BufferUnderrunError\<close> and leaves the engine, the carried forward state included, as it
  was.
\<close>

theorem compute_batch_underrun:
  assumes "int (length (flt_control_signal F)) < flt_K1 F + flt_K2 F"
  shows "fst (compute_batch F) = Some BufferUnderrunError \<and>
         snd (compute_batch F) = F \<and>
         flt_mf (snd (compute_batch F)) = flt_mf F"
  using assms by (simp add: compute_batch_def)

theorem compute_batch_underrun_witness:
  "int (length (flt_control_signal (example_filter\<lparr>flt_control_signal := [[1], [1]]\<rparr>)))
     < flt_K1 (example_filter\<lparr>flt_control_signal := [[1], [1]]\<rparr>)
       + flt_K2 (example_filter\<lparr>flt_control_signal := [[1], [1]]\<rparr>) \<and>
   compute_batch (example_filter\<lparr>flt_control_signal := [[1], [1]]\<rparr>)
     = (Some BufferUnderrunError, example_filter\<lparr>flt_control_signal := [[1], [1]]\<rparr>)"
proof -
  let ?F = "example_filter\<lparr>flt_control_signal := [[1], [1]]\<rparr>"
  have h: "int (length (flt_control_signal ?F)) < flt_K1 ?F + flt_K2 ?F"
    by (simp add: example_filter_def)
  show ?thesis
    using h compute_batch_underrun [OF h] by (simp add: prod_eq_iff)
qed

subsection \<open>The pull operation\<close>

text \<open>
  C4, as stated, fails: in a state whose iteration cap is exceeded a pull signals the end
  of the sequence although an output sample is buffered.
\<close>

theorem next_every_state_counterexample:
  "\<not> empty (est_filter ((example_estimator (finite_source []) 1 2)
        \<lparr>est_filter := example_filter\<lparr>flt_estimate := [[5]]\<rparr>\<rparr>)) \<and>
   DigitalEstimator_next tick1 ((example_estimator (finite_source []) 1 2)
        \<lparr>est_filter := example_filter\<lparr>flt_estimate := [[5]]\<rparr>\<rparr>)
     = Some (Inl StopIteration, (example_estimator (finite_source []) 1 2)
        \<lparr>est_filter := example_filter\<lparr>flt_estimate := [[5]]\<rparr>\<rparr>)"
  by (subst DigitalEstimator_next.simps) (simp add: example_estimator_def empty_def)

text \<open>
  C4, amended. In every state whose iteration cap is not exceeded: a pull returns and
  consumes the oldest buffered output sample when there is one; when there is none, and
  the configuration is valid and the source still holds the \<open>need\<close> samples that the
  window lacks, the pull moves exactly these \<open>need\<close> samples into the window, runs
  \<^verbatim>\<open>compute_batch\<close> once on the full window, and returns the first of its \<open>K1\<close> fresh
  outputs, keeping the others buffered.
\<close>

theorem next_buffered_or_fresh_batch:
  assumes "\<not> (est_size st \<noteq> 0 \<and> est_size st < est_iteration st)"
  shows "(\<forall>u us. flt_estimate (est_filter st) = u # us \<longrightarrow>
            DigitalEstimator_next tick st
              = Some (Inr u, st\<lparr>est_filter := (est_filter st)\<lparr>flt_estimate := us\<rparr>,
                                est_iteration := tick (est_iteration st)\<rparr>))
       \<and> (flt_estimate (est_filter st) = [] \<and>
          1 \<le> flt_K1 (est_filter st) \<and> 0 \<le> flt_K2 (est_filter st) \<and>
          int (length (flt_control_signal (est_filter st))) + int need
            = flt_K1 (est_filter st) + flt_K2 (est_filter st) \<and>
          (\<forall>j<need. src_feed (est_s st) (src_pos (est_s st) + j) \<noteq> None) \<longrightarrow>
            (\<exists>F u us.
               compute_batch (est_filter (filled st need)) = (None, F) \<and>
               flt_estimate F = u # us \<and>
               length (u # us) = nat (flt_K1 (est_filter st)) \<and>
               DigitalEstimator_next tick st
                 = Some (Inr u, (filled st need)\<lparr>est_filter := F\<lparr>flt_estimate := us\<rparr>,
                                   est_iteration := tick (est_iteration st)\<rparr>)))"
proof (intro conjI allI impI)
  fix u us assume "flt_estimate (est_filter st) = u # us"
  then show "DigitalEstimator_next tick st
              = Some (Inr u, st\<lparr>est_filter := (est_filter st)\<lparr>flt_estimate := us\<rparr>,
                                est_iteration := tick (est_iteration st)\<rparr>)"
    using assms by (subst DigitalEstimator_next.simps) (auto simp: empty_def output_estimate_def)
next
  assume a: "flt_estimate (est_filter st) = [] \<and>
          1 \<le> flt_K1 (est_filter st) \<and> 0 \<le> flt_K2 (est_filter st) \<and>
          int (length (flt_control_signal (est_filter st))) + int need
            = flt_K1 (est_filter st) + flt_K2 (est_filter st) \<and>
          (\<forall>j<need. src_feed (est_s st) (src_pos (est_s st) + j) \<noteq> None)"
  let ?st1 = "filled st need"
  let ?F1 = "est_filter ?st1"
  have fl: "fill st = (None, ?st1)"
    using a unfolding filled_def by (intro fill_ok) simp_all
  have len: "int (length (flt_control_signal ?F1)) = flt_K1 ?F1 + flt_K2 ?F1"
  proof -
    have "length (upcoming (est_s st) need) = need" by (simp add: upcoming_def)
    then show ?thesis using a by (simp add: filled_def)
  qed
  have k2: "0 \<le> flt_K2 ?F1" using a by (simp add: filled_def)
  define F where "F = ?F1\<lparr>flt_estimate := batch_outputs ?F1,
            flt_mf := mf_at (flt_Af ?F1) (flt_Bf ?F1) (flt_mf ?F1) (flt_control_signal ?F1)
                        (nat (flt_K1 ?F1)),
            flt_control_signal := drop (nat (flt_K1 ?F1)) (flt_control_signal ?F1)\<rparr>"
  have cb: "compute_batch ?F1 = (None, F)"
    unfolding F_def using len k2 by (rule compute_batch_estimate)
  have "length (flt_estimate F) = nat (flt_K1 (est_filter st))"
    by (simp add: F_def batch_outputs_def filled_def)
  moreover have "0 < nat (flt_K1 (est_filter st))" using a by simp
  ultimately obtain u us where est: "flt_estimate F = u # us"
    and l: "length (u # us) = nat (flt_K1 (est_filter st))"
    by (cases "flt_estimate F") auto
  let ?st2 = "?st1\<lparr>est_filter := F\<rparr>"
  have cap2: "\<not> (est_size ?st2 \<noteq> 0 \<and> est_size ?st2 < est_iteration ?st2)"
    using assms by (simp add: filled_def)
  have n2: "DigitalEstimator_next tick ?st2
              = Some (Inr u, ?st2\<lparr>est_filter := (est_filter ?st2)\<lparr>flt_estimate := us\<rparr>,
                                est_iteration := tick (est_iteration ?st2)\<rparr>)"
    using cap2 est by (subst DigitalEstimator_next.simps) (auto simp: empty_def output_estimate_def)
  have "DigitalEstimator_next tick st = DigitalEstimator_next tick ?st2"
    using assms a fl cb by (subst DigitalEstimator_next.simps) (auto simp: empty_def)
  then have "DigitalEstimator_next tick st
                 = Some (Inr u, ?st1\<lparr>est_filter := F\<lparr>flt_estimate := us\<rparr>,
                                   est_iteration := tick (est_iteration st)\<rparr>)"
    using n2 by (simp add: filled_def)
  then show "\<exists>F u us.
               compute_batch (est_filter (filled st need)) = (None, F) \<and>
               flt_estimate F = u # us \<and>
               length (u # us) = nat (flt_K1 (est_filter st)) \<and>
               DigitalEstimator_next tick st
                 = Some (Inr u, (filled st need)\<lparr>est_filter := F\<lparr>flt_estimate := us\<rparr>,
                                   est_iteration := tick (est_iteration st)\<rparr>)"
    using cb est l by blast
qed

theorem next_buffered_or_fresh_batch_witness:
  "\<not> (est_size (example_estimator (finite_source [[1], [1], [1]]) 0 0) \<noteq> 0 \<and>
       est_size (example_estimator (finite_source [[1], [1], [1]]) 0 0)
         < est_iteration (example_estimator (finite_source [[1], [1], [1]]) 0 0)) \<and>
   flt_estimate example_filter = [] \<and> 1 \<le> flt_K1 example_filter \<and> 0 \<le> flt_K2 example_filter \<and>
   int (length (flt_control_signal example_filter)) + int 3
     = flt_K1 example_filter + flt_K2 example_filter \<and>
   src_feed (finite_source [[1], [1], [1]]) (src_pos (finite_source [[1], [1], [1]]) + 0)
     = Some [1] \<and>
   src_feed (finite_source [[1], [1], [1]]) (src_pos (finite_source [[1], [1], [1]]) + 1)
     = Some [1] \<and>
   src_feed (finite_source [[1], [1], [1]]) (src_pos (finite_source [[1], [1], [1]]) + 2)
     = Some [1] \<and>
   DigitalEstimator_next tick1 (example_estimator (finite_source [[1], [1], [1]]) 0 0)
     = Some (Inr [37/8],
         \<lparr>est_filter = example_filter\<lparr>flt_estimate := [[11/2]], flt_mf := [3/2],
                                       flt_control_signal := [[1]]\<rparr>,
          est_s = (finite_source [[1], [1], [1]])\<lparr>src_pos := 3\<rparr>,
          est_size = 0, est_iteration = 1\<rparr>) \<and>
   DigitalEstimator_next tick1
         \<lparr>est_filter = example_filter\<lparr>flt_estimate := [[11/2]], flt_mf := [3/2],
                                       flt_control_signal := [[1]]\<rparr>,
          est_s = (finite_source [[1], [1], [1]])\<lparr>src_pos := 3\<rparr>,
          est_size = 0, est_iteration = 1\<rparr>
     = Some (Inr [11/2],
         \<lparr>est_filter = example_filter\<lparr>flt_estimate := [], flt_mf := [3/2],
                                       flt_control_signal := [[1]]\<rparr>,
          est_s = (finite_source [[1], [1], [1]])\<lparr>src_pos := 3\<rparr>,
          est_size = 0, est_iteration = 2\<rparr>)"
proof -
  let ?st = "example_estimator (finite_source [[1], [1], [1]]) 0 0"
  let ?st1 = "\<lparr>est_filter = example_filter\<lparr>flt_estimate := [[11/2]], flt_mf := [3/2],
                                       flt_control_signal := [[1]]\<rparr>,
          est_s = (finite_source [[1], [1], [1]])\<lparr>src_pos := 3\<rparr>,
          est_size = 0, est_iteration = 1\<rparr>"
  have c0: "\<not> (est_size ?st \<noteq> 0 \<and> est_size ?st < est_iteration ?st)"
    by (simp add: example_estimator_def)
  have c1: "\<not> (est_size ?st1 \<noteq> 0 \<and> est_size ?st1 < est_iteration ?st1)"
    by simp
  have pre: "flt_estimate (est_filter ?st) = [] \<and>
          1 \<le> flt_K1 (est_filter ?st) \<and> 0 \<le> flt_K2 (est_filter ?st) \<and>
          int (length (flt_control_signal (est_filter ?st))) + int 3
            = flt_K1 (est_filter ?st) + flt_K2 (est_filter ?st) \<and>
          (\<forall>j<3. src_feed (est_s ?st) (src_pos (est_s ?st) + j) \<noteq> None)"
    by (simp add: example_estimator_def example_filter_def finite_source_def)
  have cb: "compute_batch (est_filter (filled ?st 3))
     = (None, example_filter\<lparr>flt_estimate := [[37/8], [11/2]], flt_mf := [3/2],
                             flt_control_signal := [[1]]\<rparr>)"
    by (simp add: filled_def upcoming_def example_estimator_def finite_source_def
          compute_batch_def example_filter_def Let_def step_def vec_add_def
          mat_vec_def dot_product_def as_vec_def zero_vec_def upt_conv_Cons)
  have fresh: "DigitalEstimator_next tick1 ?st = Some (Inr [37/8], ?st1)"
    using next_buffered_or_fresh_batch [OF c0, of tick1 3] pre cb
    by (auto simp: filled_def example_estimator_def example_filter_def finite_source_def
          tick1_def)
  have buffered: "DigitalEstimator_next tick1 ?st1
     = Some (Inr [11/2],
         \<lparr>est_filter = example_filter\<lparr>flt_estimate := [], flt_mf := [3/2],
                                       flt_control_signal := [[1]]\<rparr>,
          est_s = (finite_source [[1], [1], [1]])\<lparr>src_pos := 3\<rparr>,
          est_size = 0, est_iteration = 2\<rparr>)"
    using next_buffered_or_fresh_batch [OF c1, of tick1 0]
    by (simp add: example_filter_def tick1_def)
  have feed: "src_feed (finite_source [[1], [1], [1]]) (src_pos (finite_source [[1], [1], [1]]) + 0)
     = Some [1] \<and>
   src_feed (finite_source [[1], [1], [1]]) (src_pos (finite_source [[1], [1], [1]]) + 1)
     = Some [1] \<and>
   src_feed (finite_source [[1], [1], [1]]) (src_pos (finite_source [[1], [1], [1]]) + 2)
     = Some [1]"
    by (simp add: finite_source_def)
  show ?thesis
    using c0 pre feed fresh buffered by (simp add: example_estimator_def)
qed

text \<open>
  C8. When the cap is not exceeded and no output is buffered, and the source runs out
  before the window is full (its \<open>j\<close>-th next sample does not exist, while the window
  still lacks more than \<open>j\<close> samples), the pull raises \<open>StopIteration\<close>, the
  end-of-sequence signal of the iterator protocol, and no other exception.
\<close>

theorem source_exhaustion_propagates:
  assumes "\<not> (est_size st \<noteq> 0 \<and> est_size st < est_iteration st)"
    and "empty (est_filter st)"
    and "int (length (flt_control_signal (est_filter st))) + int j
           < flt_K1 (est_filter st) + flt_K2 (est_filter st)"
    and "src_feed (est_s st) (src_pos (est_s st) + j) = None"
  shows "\<exists>st1. DigitalEstimator_next tick st = Some (Inl StopIteration, st1)"
proof -
  obtain st1 where "fill st = (Some StopIteration, st1)"
    using fill_exhausted [OF assms(3,4)] by blast
  then have "DigitalEstimator_next tick st = Some (Inl StopIteration, st1)"
    using assms(1,2) by (subst DigitalEstimator_next.simps) auto
  then show ?thesis by blast
qed


theorem source_exhaustion_propagates_witness:
  "\<not> (est_size (example_estimator (finite_source [[1], [1]]) 0 0) \<noteq> 0 \<and>
       est_size (example_estimator (finite_source [[1], [1]]) 0 0)
         < est_iteration (example_estimator (finite_source [[1], [1]]) 0 0)) \<and>
   empty (est_filter (example_estimator (finite_source [[1], [1]]) 0 0)) \<and>
   int (length (flt_control_signal (est_filter (example_estimator (finite_source [[1], [1]]) 0 0))))
      + int 2 < flt_K1 example_filter + flt_K2 example_filter \<and>
   src_feed (finite_source [[1], [1]]) (src_pos (finite_source [[1], [1]]) + 2) = None \<and>
   (\<exists>st1. DigitalEstimator_next tick1 (example_estimator (finite_source [[1], [1]]) 0 0)
            = Some (Inl StopIteration, st1))"
proof -
  let ?st = "example_estimator (finite_source [[1], [1]]) 0 0"
  have h1: "\<not> (est_size ?st \<noteq> 0 \<and> est_size ?st < est_iteration ?st)"
    by (simp add: example_estimator_def)
  have h2: "empty (est_filter ?st)"
    by (simp add: example_estimator_def example_filter_def empty_def)
  have h3: "int (length (flt_control_signal (est_filter ?st))) + int 2
              < flt_K1 (est_filter ?st) + flt_K2 (est_filter ?st)"
    by (simp add: example_estimator_def example_filter_def)
  have h4: "src_feed (est_s ?st) (src_pos (est_s ?st) + 2) = None"
    by (simp add: example_estimator_def finite_source_def)
  show ?thesis
    using h1 h2 h3 h4 source_exhaustion_propagates [OF h1 h2 h3 h4, of tick1]
    by (simp add: example_estimator_def)
qed

text \<open>
  C10. Once the cap is exceeded (\<^verbatim>\<open>_size\<close> is not \<open>0\<close> and smaller than
  \<^verbatim>\<open>_iteration\<close>), every one of any number of further pulls signals the end of the
  sequence and leaves the estimator as it is, whether output samples are buffered or not:
  the cap is checked before the buffer.
\<close>

theorem cap_exceeded_stops:
  assumes "est_size st \<noteq> 0" and "est_size st < est_iteration st"
  shows "pulls tick n st = Some (replicate n (Inl StopIteration), st)"
  using assms by (induction n) (simp_all add: next_cap)

theorem cap_exceeded_stops_witness:
  "est_size ((example_estimator (finite_source [[1]]) 1 2)
        \<lparr>est_filter := example_filter\<lparr>flt_estimate := [[5], [7]]\<rparr>\<rparr>) \<noteq> 0 \<and>
   est_size ((example_estimator (finite_source [[1]]) 1 2)
        \<lparr>est_filter := example_filter\<lparr>flt_estimate := [[5], [7]]\<rparr>\<rparr>)
     < est_iteration ((example_estimator (finite_source [[1]]) 1 2)
        \<lparr>est_filter := example_filter\<lparr>flt_estimate := [[5], [7]]\<rparr>\<rparr>) \<and>
   \<not> empty (example_filter\<lparr>flt_estimate := [[5], [7]]\<rparr>) \<and>
   pulls tick1 3 ((example_estimator (finite_source [[1]]) 1 2)
        \<lparr>est_filter := example_filter\<lparr>flt_estimate := [[5], [7]]\<rparr>\<rparr>)
     = Some ([Inl StopIteration, Inl StopIteration, Inl StopIteration],
         (example_estimator (finite_source [[1]]) 1 2)
        \<lparr>est_filter := example_filter\<lparr>flt_estimate := [[5], [7]]\<rparr>\<rparr>)"
proof -
  let ?st = "(example_estimator (finite_source [[1]]) 1 2)
        \<lparr>est_filter := example_filter\<lparr>flt_estimate := [[5], [7]]\<rparr>\<rparr>"
  have h1: "est_size ?st \<noteq> 0" by (simp add: example_estimator_def)
  have h2: "est_size ?st < est_iteration ?st" by (simp add: example_estimator_def)
  have "replicate 3 (Inl StopIteration :: exn + vec)
          = [Inl StopIteration, Inl StopIteration, Inl StopIteration]"
    by (simp add: numeral_3_eq_3)
  then show ?thesis
    using h1 h2 cap_exceeded_stops [OF h1 h2, of tick1 3] by (simp add: empty_def)
qed

subsection \<open>Zero input\<close>

text \<open>
  C7. An estimator with a valid \<open>K1\<close> and \<open>K2\<close>, zero carried forward state, an empty
  window and no buffered output, with any coefficient matrices, any cap and any counter,
  fed by a source of any length that yields all-zero control samples only: any number
  \<open>n\<close> of pulls returns \<open>n\<close> outcomes, and every sample among them is zero in every
  component.
\<close>

theorem zero_input_zero_output:
  assumes "1 \<le> flt_K1 (est_filter st)" and "0 \<le> flt_K2 (est_filter st)"
    and "zero_vector (flt_mf (est_filter st))"
    and "flt_control_signal (est_filter st) = []"
    and "flt_estimate (est_filter st) = []"
    and "\<forall>n s. src_feed (est_s st) n = Some s \<longrightarrow> zero_sample s"
  shows "\<exists>rs st1. pulls tick n st = Some (rs, st1) \<and> length rs = n \<and>
           (\<forall>u. Inr u \<in> set rs \<longrightarrow> zero_vector u)"
proof -
  have "wf_estimator st" using assms(1,2,4) by (simp add: wf_estimator_def)
  then obtain rs st1 where p: "pulls tick n st = Some (rs, st1)" and l: "length rs = n"
    using pulls_total by blast
  have "zero_state st" using assms(3-6) by (simp add: zero_state_def)
  then have "\<forall>u. Inr u \<in> set rs \<longrightarrow> zero_vector u" using p by (rule pulls_zero)
  then show ?thesis using p l by blast
qed

theorem zero_input_zero_output_witness:
  "1 \<le> flt_K1 example_filter \<and> 0 \<le> flt_K2 example_filter \<and>
   zero_vector (flt_mf example_filter) \<and>
   flt_control_signal example_filter = [] \<and> flt_estimate example_filter = [] \<and>
   src_feed (dummy_control_sequence_signal 1) 0 = Some [0] \<and> zero_sample [0] \<and>
   pulls tick1 3 (example_estimator (dummy_control_sequence_signal 1) 0 0)
     = Some ([Inr [0], Inr [0], Inr [0]],
         \<lparr>est_filter = example_filter\<lparr>flt_estimate := [[0]], flt_control_signal := [[0]]\<rparr>,
          est_s = (dummy_control_sequence_signal 1)\<lparr>src_pos := 5\<rparr>,
          est_size = 0, est_iteration = 3\<rparr>) \<and>
   zero_vector [0]"
proof -
  let ?st = "example_estimator (dummy_control_sequence_signal 1) 0 0"
  let ?st3 = "\<lparr>est_filter = example_filter\<lparr>flt_estimate := [[0]], flt_control_signal := [[0]]\<rparr>,
          est_s = (dummy_control_sequence_signal 1)\<lparr>src_pos := 5\<rparr>,
          est_size = 0, est_iteration = 3\<rparr>"
  have k1: "1 \<le> flt_K1 (est_filter ?st)"
    by (simp add: example_estimator_def example_filter_def)
  have k2: "0 \<le> flt_K2 (est_filter ?st)"
    by (simp add: example_estimator_def example_filter_def)
  have h1: "zero_vector (flt_mf (est_filter ?st))"
    by (simp add: example_estimator_def example_filter_def zero_vector_def)
  have h2: "flt_control_signal (est_filter ?st) = []"
    by (simp add: example_estimator_def example_filter_def)
  have h3: "flt_estimate (est_filter ?st) = []"
    by (simp add: example_estimator_def example_filter_def)
  have h4: "\<forall>n s. src_feed (est_s ?st) n = Some s \<longrightarrow> zero_sample s"
    by (auto simp: example_estimator_def dummy_control_sequence_signal_def zero_sample_def)
  let ?st1 = "\<lparr>est_filter = example_filter\<lparr>flt_estimate := [[0]], flt_control_signal := [[0]]\<rparr>,
          est_s = (dummy_control_sequence_signal 1)\<lparr>src_pos := 3\<rparr>,
          est_size = 0, est_iteration = 1\<rparr>"
  let ?st2 = "\<lparr>est_filter = example_filter\<lparr>flt_estimate := [], flt_control_signal := [[0]]\<rparr>,
          est_s = (dummy_control_sequence_signal 1)\<lparr>src_pos := 3\<rparr>,
          est_size = 0, est_iteration = 2\<rparr>"
  have n1: "DigitalEstimator_next tick1 ?st = Some (Inr [0], ?st1)"
    apply (subst DigitalEstimator_next.simps)
    apply (subst DigitalEstimator_next.simps)
    apply (simp add: example_estimator_def example_filter_def dummy_control_sequence_signal_def
          empty_def full_def input_def next_s_def output_estimate_def tick1_def
          compute_batch_def Let_def step_def vec_add_def mat_vec_def dot_product_def
          as_vec_def zero_vec_def)
    done
  have n2: "DigitalEstimator_next tick1 ?st1 = Some (Inr [0], ?st2)"
    apply (subst DigitalEstimator_next.simps)
    apply (simp add: example_filter_def empty_def output_estimate_def tick1_def)
    done
  have n3: "DigitalEstimator_next tick1 ?st2 = Some (Inr [0], ?st3)"
    apply (subst DigitalEstimator_next.simps)
    apply (subst DigitalEstimator_next.simps)
    apply (simp add: example_filter_def dummy_control_sequence_signal_def
          empty_def full_def input_def next_s_def output_estimate_def tick1_def
          compute_batch_def Let_def step_def vec_add_def mat_vec_def dot_product_def
          as_vec_def zero_vec_def)
    done
  have p1: "pulls tick1 (Suc 0) ?st2 = Some ([Inr [0]], ?st3)"
    by (subst pulls.simps(2)) (simp only: n3 pulls.simps(1) option.case prod.case)
  have p2: "pulls tick1 (Suc (Suc 0)) ?st1 = Some ([Inr [0], Inr [0]], ?st3)"
    by (subst pulls.simps(2)) (simp only: n2 p1 option.case prod.case)
  have p3: "pulls tick1 (Suc (Suc (Suc 0))) ?st = Some ([Inr [0], Inr [0], Inr [0]], ?st3)"
    by (subst pulls.simps(2)) (simp only: n1 p2 option.case prod.case)
  have h5: "pulls tick1 3 ?st = Some ([Inr [0], Inr [0], Inr [0]], ?st3)"
    using p3 by (simp only: numeral_3_eq_3)
  have z: "zero_vector [0]"
    using zero_input_zero_output [OF k1 k2 h1 h2 h3 h4, of tick1 3] h5 by simp
  have f: "src_feed (dummy_control_sequence_signal 1) 0 = Some [0] \<and> zero_sample [0]"
    by (simp add: dummy_control_sequence_signal_def zero_sample_def)
  show ?thesis
    using k1 k2 h1 h2 h3 h5 z f by (simp add: example_estimator_def)
qed

end
